theory Spec2Isabelle
  imports Main
begin

section \<open>The secure local record pipeline of \<open>main.cpp\<close>\<close>

text \<open>
  The program keeps its state in namespace-level globals: \<open>ConfigManager::config\<close>,
  \<open>LocalStorage::db\<close> and \<open>ThreadPool::tasks\<close>. The model passes them around as one record,
  together with the table behind the database handle and the two output streams.
  A \<open>std::string\<close> is a sequence of bytes that may contain the byte zero, that is a
  \<^typ>\<open>string\<close>.
\<close>

subsection \<open>Exceptions\<close>

datatype exn =
    runtime_error string
  | other_std_exception string
  | non_std_exception

text \<open>
  \<open>runtime_error m\<close> is \<open>std::runtime_error(m)\<close>, the only exception the program itself
  throws. \<open>other_std_exception m\<close> is any other exception derived from \<open>std::exception\<close>
  that a library raises, with its \<open>what()\<close>; \<open>non_std_exception\<close> is a thrown value that
  only \<open>catch (...)\<close> receives.
\<close>

fun what :: "exn \<Rightarrow> string" where
  "what (runtime_error m) = m"
| "what (other_std_exception m) = m"
| "what non_std_exception = []"

subsection \<open>C strings\<close>

definition NUL :: char where
  "NUL = CHR 0x00"

text \<open>
  What a reader of a \<open>const char*\<close> sees when no length is given: the bytes before the
  first zero byte. This is how \<open>sqlite3_bind_text\<close> reads its argument when the length
  passed is \<open>-1\<close>, and how \<open>std::string\<close> is assigned from a \<open>const char*\<close>.
\<close>

definition c_str :: "string \<Rightarrow> string" where
  "c_str s = takeWhile (\<lambda>c. c \<noteq> NUL) s"

subsection \<open>SQLite\<close>

datatype rc =
    SQLITE_OK | SQLITE_ERROR | SQLITE_NOMEM | SQLITE_IOERR | SQLITE_CANTOPEN
  | SQLITE_MISUSE | SQLITE_ROW | SQLITE_DONE

text \<open>
  The object behind a non-null \<open>sqlite3*\<close>. \<open>sqlite3_open\<close> hands out a handle even when
  it fails; such a handle is \<open>Sick\<close> and no statement can be prepared on it.
\<close>

datatype sqlite3 = Healthy | Sick

text \<open>The rows of \<open>storage (key TEXT PRIMARY KEY, value TEXT)\<close>, oldest first.\<close>

type_synonym table = "(string \<times> string) list"

datatype stream = cout | cerr

datatype outcome = Success | Error exn

datatype future = Future outcome | Invalid

record state =
  config :: "string \<rightharpoonup> string"
  db :: "sqlite3 option"
  storage :: "table option"
  tasks :: "future list"
  console :: "(stream \<times> string) list"

text \<open>
  \<open>db = None\<close> is the null pointer. \<open>storage = None\<close> says that the database file has no
  table \<open>storage\<close> yet. \<open>config\<close> holds the members of the parsed configuration object,
  each read through \<open>asString()\<close>.

  Failures of the library that the program cannot influence (memory, locks, the disk) are
  inputs of the model.
\<close>

record faults =
  prepare_fault :: bool
  step_fault :: bool

definition no_faults :: faults where
  "no_faults = \<lparr>prepare_fault = False, step_fault = False\<rparr>"

text \<open>
  \<open>sqlite3_prepare_v2(db, sql, -1, &stmt, 0)\<close> for the two statements on table \<open>storage\<close>:
  a null or sick handle is reported as misuse, a missing table as an SQL error.
\<close>

definition sqlite3_prepare_v2 :: "bool \<Rightarrow> state \<Rightarrow> rc" where
  "sqlite3_prepare_v2 fault s =
     (case db s of
        None \<Rightarrow> SQLITE_MISUSE
      | Some Sick \<Rightarrow> SQLITE_MISUSE
      | Some Healthy \<Rightarrow>
          (case storage s of
             None \<Rightarrow> SQLITE_ERROR
           | Some t \<Rightarrow> if fault then SQLITE_NOMEM else SQLITE_OK))"

text \<open>
  \<open>INSERT OR REPLACE\<close> under the primary key: the row in conflict is deleted and the new
  row is inserted.
\<close>

definition insert_or_replace :: "string \<Rightarrow> string \<Rightarrow> table \<Rightarrow> table" where
  "insert_or_replace k v t = filter (\<lambda>r. fst r \<noteq> k) t @ [(k, v)]"

text \<open>\<open>sqlite3_step\<close> on the prepared insert, with its two bound texts.\<close>

definition step_insert :: "bool \<Rightarrow> string \<Rightarrow> string \<Rightarrow> state \<Rightarrow> rc \<times> state" where
  "step_insert fault k v s =
     (case storage s of
        None \<Rightarrow> (SQLITE_ERROR, s)
      | Some t \<Rightarrow>
          if fault then (SQLITE_IOERR, s)
          else (SQLITE_DONE, s\<lparr>storage := Some (insert_or_replace k v t)\<rparr>))"

text \<open>
  \<open>sqlite3_step\<close> on the prepared select: \<open>SQLITE_ROW\<close> with the column's text when a row
  has the bound key, \<open>SQLITE_DONE\<close> when none has.
\<close>

definition step_select :: "bool \<Rightarrow> string \<Rightarrow> state \<Rightarrow> (rc \<times> string option) \<times> state" where
  "step_select fault k s =
     (case storage s of
        None \<Rightarrow> ((SQLITE_ERROR, None), s)
      | Some t \<Rightarrow>
          if fault then ((SQLITE_IOERR, None), s)
          else (case map_of t k of
                  None \<Rightarrow> ((SQLITE_DONE, None), s)
                | Some v \<Rightarrow> ((SQLITE_ROW, Some v), s)))"

subsection \<open>LocalStorage\<close>

text \<open>
  \<open>Store\<close> and \<open>Retrieve\<close> bind their texts with length \<open>-1\<close> and ignore the result of
  \<open>sqlite3_bind_text\<close>. Keys and values are taken to be within SQLite's length limit, so
  that a bind does not fail.
\<close>

definition Store :: "faults \<Rightarrow> string \<Rightarrow> string \<Rightarrow> state \<Rightarrow> exn option \<times> state" where
  "Store f key data s =
     (if sqlite3_prepare_v2 (prepare_fault f) s \<noteq> SQLITE_OK
      then (Some (runtime_error ''Failed to prepare SQLite statement.''), s)
      else
        (case step_insert (step_fault f) (c_str key) (c_str data) s of
           (r, s') \<Rightarrow>
             if r \<noteq> SQLITE_DONE
             then (Some (runtime_error ''Failed to execute SQLite insert statement.''), s')
             else (None, s')))"

definition Retrieve :: "faults \<Rightarrow> string \<Rightarrow> state \<Rightarrow> (exn + string) \<times> state" where
  "Retrieve f key s =
     (if sqlite3_prepare_v2 (prepare_fault f) s \<noteq> SQLITE_OK
      then (Inl (runtime_error ''Failed to prepare SQLite statement.''), s)
      else
        (case step_select (step_fault f) (c_str key) s of
           ((r, col), s') \<Rightarrow>
             (case col of
                Some v \<Rightarrow>
                  if r = SQLITE_ROW then (Inr (c_str v), s')
                  else (Inl (runtime_error ''Key not found in SQLite database.''), s')
              | None \<Rightarrow> (Inl (runtime_error ''Key not found in SQLite database.''), s'))))"

definition CloseDatabase :: "state \<Rightarrow> state" where
  "CloseDatabase s = (case db s of None \<Rightarrow> s | Some h \<Rightarrow> s\<lparr>db := None\<rparr>)"

text \<open>A store that has been opened on an empty database file, for the concrete runs below.\<close>

definition opened :: state where
  "opened = \<lparr>config = Map.empty, db = Some Healthy, storage = Some [], tasks = [],
             console = []\<rparr>"

definition unopened :: state where
  "unopened = \<lparr>config = Map.empty, db = None, storage = None, tasks = [], console = []\<rparr>"

subsection \<open>Encryption\<close>

text \<open>
  Libsodium as the program links it. \<open>sodium.h\<close> is not part of the repository, so its
  three size macros and its functions are parameters: the return code of \<open>sodium_init()\<close>,
  the bytes that \<open>randombytes_buf\<close> delivers for a requested size, and the detached
  secret-box primitive, which maps message, nonce and key to the ciphertext and the tag.
  \<open>behind_key\<close> is the memory that follows the key string's terminator; the library reads
  it when the key is shorter than the key size, which C++ leaves undefined.
\<close>

record sodium =
  sodium_init :: int
  crypto_secretbox_NONCEBYTES :: nat
  crypto_secretbox_MACBYTES :: nat
  crypto_secretbox_KEYBYTES :: nat
  randombytes_buf :: "nat \<Rightarrow> string"
  crypto_secretbox_detached :: "string \<Rightarrow> string \<Rightarrow> string \<Rightarrow> string \<times> string"
  behind_key :: string

text \<open>
  A library function that is given a buffer writes its bytes from the buffer's start; the
  buffer keeps its size.
\<close>

definition write_buf :: "string \<Rightarrow> string \<Rightarrow> string" where
  "write_buf buf bytes = take (length buf) (bytes @ drop (length bytes) buf)"

text \<open>
  \<open>crypto_secretbox_easy(c, m, mlen, n, k)\<close> is the combined mode of the library: it calls
  the detached primitive with the tag at \<open>c\<close> and the ciphertext at
  \<open>c + crypto_secretbox_MACBYTES\<close>.
\<close>

definition crypto_secretbox_easy :: "sodium \<Rightarrow> string \<Rightarrow> string \<Rightarrow> string \<Rightarrow> string" where
  "crypto_secretbox_easy lib m n k =
     (case crypto_secretbox_detached lib m n k of (c, mac) \<Rightarrow> mac @ c)"

text \<open>
  The key bytes the library reads through the pointer \<open>key.c_str()\<close>. The pointer leads
  to the key and its terminator. When these are fewer than \<open>crypto_secretbox_KEYBYTES\<close>
  bytes the read leaves the array, which C++ leaves undefined; \<open>key_in_bounds\<close> says that
  it does not.
\<close>

definition key_in_bounds :: "sodium \<Rightarrow> string \<Rightarrow> bool" where
  "key_in_bounds lib key \<longleftrightarrow> crypto_secretbox_KEYBYTES lib \<le> length key + 1"


definition read_key :: "sodium \<Rightarrow> string \<Rightarrow> string" where
  "read_key lib key = take (crypto_secretbox_KEYBYTES lib) (key @ [NUL] @ behind_key lib)"

text \<open>The array \<open>nonce\<close> after \<open>randombytes_buf(nonce, sizeof(nonce))\<close>.\<close>

definition fresh_nonce :: "sodium \<Rightarrow> string" where
  "fresh_nonce lib =
     write_buf (replicate (crypto_secretbox_NONCEBYTES lib) NUL)
       (randombytes_buf lib (crypto_secretbox_NONCEBYTES lib))"

text \<open>
  The string \<open>encrypted_data\<close> of \<open>EncryptAndAuthenticate\<close> after the call of
  \<open>crypto_secretbox_easy\<close>: it is created with \<open>crypto_secretbox_MACBYTES + data.size()\<close>
  zero bytes and the library writes into it.
\<close>

definition encrypted_buffer :: "sodium \<Rightarrow> string \<Rightarrow> string \<Rightarrow> string \<Rightarrow> string" where
  "encrypted_buffer lib data nonce key =
     write_buf (replicate (crypto_secretbox_MACBYTES lib + length data) NUL)
       (crypto_secretbox_easy lib data nonce (read_key lib key))"

definition EncryptAndAuthenticate :: "sodium \<Rightarrow> string \<Rightarrow> string \<Rightarrow> exn + string" where
  "EncryptAndAuthenticate lib data key =
     (if sodium_init lib < 0 then Inl (runtime_error ''Libsodium initialization failed.'')
      else
        let nonce = fresh_nonce lib
        in Inr (nonce @ encrypted_buffer lib data nonce key))"

text \<open>
  A stand-in library for the concrete runs below, with the sizes of libsodium: the
  generator delivers the byte \<open>N\<close>, the cipher reverses the message and the tag is sixteen
  times the byte \<open>T\<close>.
\<close>

definition test_sodium :: sodium where
  "test_sodium =
     \<lparr>sodium_init = 0,
      crypto_secretbox_NONCEBYTES = 24,
      crypto_secretbox_MACBYTES = 16,
      crypto_secretbox_KEYBYTES = 32,
      randombytes_buf = (\<lambda>n. replicate n (CHR ''N'')),
      crypto_secretbox_detached = (\<lambda>m n k. (rev m, replicate 16 (CHR ''T''))),
      behind_key = []\<rparr>"

text \<open>The same library when its initialization fails.\<close>

definition failing_sodium :: sodium where
  "failing_sodium = test_sodium\<lparr>sodium_init := - 1\<rparr>"

text \<open>A library failure at statement preparation, for the concrete runs below.\<close>

definition prepare_failure :: faults where
  "prepare_failure = \<lparr>prepare_fault = True, step_fault = False\<rparr>"

subsection \<open>ThreadPool\<close>

text \<open>
  A job is modelled by what running it does: it returns or it throws. A
  \<open>std::future<void>\<close> holds that outcome until \<open>get()\<close> returns or rethrows it, and is
  invalid afterwards. \<open>get()\<close> on an invalid future is undefined in C++; the standard
  libraries throw \<open>std::future_error\<close>.
\<close>

definition AddTask :: "outcome \<Rightarrow> state \<Rightarrow> state" where
  "AddTask func s = s\<lparr>tasks := tasks s @ [Future func]\<rparr>"

text \<open>The loop of \<open>WaitForAll\<close>: the exception that leaves it, if any, and the futures after it.\<close>

fun get_each :: "future list \<Rightarrow> exn option \<times> future list" where
  "get_each [] = (None, [])"
| "get_each (Future Success # ts) =
     (case get_each ts of (r, ts') \<Rightarrow> (r, Invalid # ts'))"
| "get_each (Future (Error e) # ts) = (Some e, Invalid # ts)"
| "get_each (Invalid # ts) =
     (Some (other_std_exception ''std::future_error: No associated state''), Invalid # ts)"

definition WaitForAll :: "state \<Rightarrow> exn option \<times> state" where
  "WaitForAll s =
     (case get_each (tasks s) of
        (Some e, ts') \<Rightarrow> (Some e, s\<lparr>tasks := ts'\<rparr>)
      | (None, ts') \<Rightarrow> (None, s\<lparr>tasks := []\<rparr>))"

text \<open>The error of the first job that fails, in the order of submission.\<close>

fun first_error :: "outcome list \<Rightarrow> exn option" where
  "first_error [] = None"
| "first_error (Success # js) = first_error js"
| "first_error (Error e # js) = Some e"


subsection \<open>ConfigManager\<close>

text \<open>What opening \<open>file_path\<close> and reading it with \<open>file >> config\<close> gives.\<close>

datatype config_file = Unreadable | Malformed string | Parsed "string \<rightharpoonup> string"

text \<open>
  The record of a logistics event: the four members that \<open>main\<close> assigns to its
  \<open>Json::Value\<close>, and the four fields passed to \<open>logistics::StoreMetadataInIPFS\<close>.
\<close>

record metadata =
  product_id :: string
  timestamp :: string
  location :: string
  owner :: string

text \<open>
  What lies outside the program: the file system, the SQLite library and the database
  file, libsodium, the JsonCpp writer and the IPFS collaborator. The headers
  \<open>logistics/metadata.h\<close> and \<open>storage/ipfs.h\<close> are not part of the repository, so the
  collaborator is a parameter: what the call made by the job does.
\<close>

record env =
  files :: "string \<Rightarrow> config_file"
  sqlite3_open :: "string \<Rightarrow> rc"
  database :: "table option"
  create_table_error :: "string option"
  store_faults :: faults
  libsodium :: sodium
  toStyledString :: "metadata \<Rightarrow> string"
  StoreMetadataInIPFS :: "metadata \<Rightarrow> outcome"

definition LoadConfig :: "env \<Rightarrow> string \<Rightarrow> state \<Rightarrow> exn option \<times> state" where
  "LoadConfig e file_path s =
     (case files e file_path of
        Unreadable \<Rightarrow> (Some (runtime_error ''Failed to load configuration file.''), s)
      | Malformed errs \<Rightarrow> (Some (other_std_exception errs), s)
      | Parsed members \<Rightarrow> (None, s\<lparr>config := members\<rparr>))"

definition Get :: "string \<Rightarrow> state \<Rightarrow> exn + string" where
  "Get key s =
     (case config s key of
        None \<Rightarrow> Inl (runtime_error (''Configuration key not found: '' @ key))
      | Some v \<Rightarrow> Inr v)"

definition InitializeDatabase :: "env \<Rightarrow> state \<Rightarrow> exn option \<times> state" where
  "InitializeDatabase e s =
     (case Get ''db_path'' s of
        Inl x \<Rightarrow> (Some x, s)
      | Inr path \<Rightarrow>
          if sqlite3_open e (c_str path) \<noteq> SQLITE_OK
          then (Some (runtime_error ''Failed to open SQLite database.''), s\<lparr>db := Some Sick\<rparr>)
          else
            (case create_table_error e of
               Some err_msg \<Rightarrow>
                 (Some (runtime_error (''Failed to create table: '' @ c_str err_msg)),
                  s\<lparr>db := Some Healthy\<rparr>)
             | None \<Rightarrow>
                 (None, s\<lparr>db := Some Healthy,
                           storage := Some (case storage s of None \<Rightarrow> [] | Some t \<Rightarrow> t)\<rparr>)))"

subsection \<open>main\<close>

definition print :: "stream \<Rightarrow> string \<Rightarrow> state \<Rightarrow> state" where
  "print out line s = s\<lparr>console := console s @ [(out, line)]\<rparr>"

definition sample_metadata :: metadata where
  "sample_metadata =
     \<lparr>product_id = ''SampleProductID'', timestamp = ''2025-01-06T10:00:00Z'',
      location = ''Warehouse A'', owner = ''Company X''\<rparr>"

text \<open>
  A statement of the \<open>try\<close> block: the exception it throws, if any, and the state it
  leaves. \<open>exec\<close> runs statements in order up to the first exception and returns the
  state after each statement it ran.
\<close>

type_synonym stmt = "state \<Rightarrow> exn option \<times> state"

fun exec :: "stmt list \<Rightarrow> state \<Rightarrow> state list \<times> exn option" where
  "exec [] s = ([], None)"
| "exec (c # cs) s =
     (case c s of
        (Some x, s') \<Rightarrow> ([s'], Some x)
      | (None, s') \<Rightarrow> (case exec cs s' of (h, r) \<Rightarrow> (s' # h, r)))"

text \<open>Lines 141 and 142: read the key, encrypt the serialized record, store the envelope.\<close>

definition encrypt_and_store :: "env \<Rightarrow> metadata \<Rightarrow> stmt" where
  "encrypt_and_store e md s =
     (case Get ''encryption_key'' s of
        Inl x \<Rightarrow> (Some x, s)
      | Inr key \<Rightarrow>
          (case EncryptAndAuthenticate (libsodium e) (toStyledString e md) key of
             Inl x \<Rightarrow> (Some x, s)
           | Inr encrypted_data \<Rightarrow> Store (store_faults e) ''SampleKey'' encrypted_data s))"

text \<open>
  The \<open>try\<close> block of \<open>main\<close>, with the record that \<open>main\<close> builds as a parameter. The job
  passes its own literal fields to the collaborator.
\<close>

definition try_block :: "env \<Rightarrow> metadata \<Rightarrow> stmt list" where
  "try_block e md =
     [LoadConfig e ''config.json'',
      InitializeDatabase e,
      encrypt_and_store e md,
      (\<lambda>s. (None, AddTask (StoreMetadataInIPFS e sample_metadata) s)),
      WaitForAll,
      (\<lambda>s. (None, CloseDatabase s)),
      (\<lambda>s. (None, print cout ''Execution completed successfully.'' s))]"

definition initial :: "env \<Rightarrow> state" where
  "initial e =
     \<lparr>config = Map.empty, db = None, storage = database e, tasks = [], console = []\<rparr>"

text \<open>What the two handlers write to \<open>std::cerr\<close>.\<close>

fun description :: "exn \<Rightarrow> string" where
  "description non_std_exception = ''Unknown error occurred during execution.''"
| "description x = ''Error during execution: '' @ c_str (what x)"

text \<open>
  The states a run of the process passes through, for a given record: the initial state,
  the state after each statement of the \<open>try\<close> block, and the state after the handler
  when an exception was caught.
\<close>

definition run :: "env \<Rightarrow> metadata \<Rightarrow> state list" where
  "run e md =
     (case exec (try_block e md) (initial e) of
        (h, None) \<Rightarrow> initial e # h
      | (h, Some x) \<Rightarrow> initial e # h @ [print cerr (description x) (last (initial e # h))])"

text \<open>\<open>main\<close>: the exit status and the states of the run.\<close>

definition main :: "env \<Rightarrow> int \<times> state list" where
  "main e = (0, run e sample_metadata)"

text \<open>
  A stand-in environment for the concrete runs below, in which every collaborator
  succeeds, and one whose configuration file cannot be opened.
\<close>

definition test_env :: env where
  "test_env =
     \<lparr>files = (\<lambda>p. if p = ''config.json''
                    then Parsed [''db_path'' \<mapsto> ''logistics.db'',
                                 ''encryption_key'' \<mapsto> replicate 32 (CHR ''K'')]
                    else Unreadable),
      sqlite3_open = (\<lambda>p. SQLITE_OK),
      database = None,
      create_table_error = None,
      store_faults = no_faults,
      libsodium = test_sodium,
      toStyledString = (\<lambda>md. product_id md @ '','' @ timestamp md @ '','' @ location md
                             @ '','' @ owner md),
      StoreMetadataInIPFS = (\<lambda>md. Success)\<rparr>"

definition no_config_env :: env where
  "no_config_env = test_env\<lparr>files := (\<lambda>p. Unreadable)\<rparr>"



text \<open>
  Two observers for the statements about a run: the value that the table holds under a
  key, and the envelope that line 141 computes in a state.
\<close>

definition stored_value :: "string \<Rightarrow> state \<Rightarrow> string option" where
  "stored_value k s = (case storage s of None \<Rightarrow> None | Some t \<Rightarrow> map_of t k)"

definition envelope_of :: "env \<Rightarrow> metadata \<Rightarrow> state \<Rightarrow> string option" where
  "envelope_of e md s =
     (case Get ''encryption_key'' s of
        Inl x \<Rightarrow> None
      | Inr key \<Rightarrow>
          (case EncryptAndAuthenticate (libsodium e) (toStyledString e md) key of
             Inl x \<Rightarrow> None
           | Inr encrypted_data \<Rightarrow> Some encrypted_data))"

text \<open>The table holds, under \<open>SampleKey\<close>, the envelope of the record as SQLite kept it.\<close>

definition envelope_stored :: "env \<Rightarrow> metadata \<Rightarrow> state \<Rightarrow> bool" where
  "envelope_stored e md s =
     (case envelope_of e md s of
        None \<Rightarrow> False
      | Some envelope \<Rightarrow> stored_value ''SampleKey'' s = Some (c_str envelope))"

section \<open>Properties of the record store\<close>

lemma prepare_ok_iff:
  "sqlite3_prepare_v2 fault s = SQLITE_OK \<longleftrightarrow>
     db s = Some Healthy \<and> storage s \<noteq> None \<and> \<not> fault"
  by (simp add: sqlite3_prepare_v2_def split: option.splits sqlite3.splits)

lemma map_of_insert_or_replace:
  "map_of (insert_or_replace k v t) k' = (if k' = k then Some v else map_of t k')"
  by (induction t) (auto simp: insert_or_replace_def)

lemma rows_insert_or_replace:
  "filter (\<lambda>r. fst r = k) (insert_or_replace k v t) = [(k, v)]"
  by (induction t) (auto simp: insert_or_replace_def)

lemma Store_open:
  assumes "db s = Some Healthy" and "storage s = Some t"
  shows "Store no_faults key data s =
           (None, s\<lparr>storage := Some (insert_or_replace (c_str key) (c_str data) t)\<rparr>)"
  using assms
  by (simp add: Store_def sqlite3_prepare_v2_def step_insert_def no_faults_def)

lemma Retrieve_open:
  assumes "db s = Some Healthy" and "storage s = Some t"
  shows "Retrieve no_faults key s =
           ((case map_of t (c_str key) of
               None \<Rightarrow> Inl (runtime_error ''Key not found in SQLite database.'')
             | Some v \<Rightarrow> Inr (c_str v)), s)"
  using assms
  by (simp add: Retrieve_def sqlite3_prepare_v2_def step_select_def no_faults_def
      split: option.splits)

lemma c_str_idem: "c_str (c_str s) = c_str s"
  by (simp add: c_str_def takeWhile_idem)

text \<open>
  Two writes to one key and a read, on an open store without library failures: the store
  holds one row for the key, and the read returns the second value as far as its first
  zero byte.
\<close>

lemma upsert_then_read:
  assumes "db s = Some Healthy" and "storage s = Some t"
    and "Store no_faults k v1 s = (r1, s1)"
    and "Store no_faults k v2 s1 = (r2, s2)"
  shows "r1 = None \<and> r2 = None \<and> fst (Retrieve no_faults k s2) = Inr (c_str v2) \<and>
         (\<exists>t2. storage s2 = Some t2 \<and>
            filter (\<lambda>r. fst r = c_str k) t2 = [(c_str k, c_str v2)])"
proof -
  let ?t1 = "insert_or_replace (c_str k) (c_str v1) t"
  let ?t2 = "insert_or_replace (c_str k) (c_str v2) ?t1"
  have s1: "r1 = None" "s1 = s\<lparr>storage := Some ?t1\<rparr>"
    using assms(3) Store_open [OF assms(1,2), of k v1] by simp_all
  have open1: "db s1 = Some Healthy" "storage s1 = Some ?t1"
    using s1 assms(1) by simp_all
  have s2: "r2 = None" "s2 = s1\<lparr>storage := Some ?t2\<rparr>"
    using assms(4) Store_open [OF open1, of k v2] by simp_all
  have open2: "db s2 = Some Healthy" "storage s2 = Some ?t2"
    using s2 open1 by simp_all
  have "fst (Retrieve no_faults k s2) = Inr (c_str v2)"
    by (simp add: Retrieve_open [OF open2] map_of_insert_or_replace c_str_idem)
  moreover have "filter (\<lambda>r. fst r = c_str k) ?t2 = [(c_str k, c_str v2)]"
    by (rule rows_insert_or_replace)
  ultimately show ?thesis using s1(1) s2(1) open2(2) by simp
qed

lemma Retrieve_absent:
  assumes "db s = Some Healthy" and "storage s = Some t"
    and "c_str key \<notin> fst ` set t"
  shows "fst (Retrieve no_faults key s) = Inl (runtime_error ''Key not found in SQLite database.'')"
proof -
  have "map_of t (c_str key) = None"
    using assms(3) by (simp add: map_of_eq_None_iff)
  then show ?thesis
    by (simp add: Retrieve_open [OF assms(1,2)])
qed

lemma CloseDatabase_null: "db (CloseDatabase s) = None"
  by (cases "db s") (simp_all add: CloseDatabase_def)

lemma prepare_null: "db s = None \<Longrightarrow> sqlite3_prepare_v2 b s = SQLITE_MISUSE"
  by (simp add: sqlite3_prepare_v2_def)

lemma Store_ok_open: "fst (Store f key data s) = None \<Longrightarrow> db s = Some Healthy"
proof (rule ccontr)
  assume ok: "fst (Store f key data s) = None" and "db s \<noteq> Some Healthy"
  then have "sqlite3_prepare_v2 (prepare_fault f) s \<noteq> SQLITE_OK"
    by (simp add: prepare_ok_iff)
  then have "fst (Store f key data s) \<noteq> None"
    by (simp add: Store_def)
  with ok show False by simp
qed

lemma Retrieve_ok_open: "fst (Retrieve f key s) = Inr v \<Longrightarrow> db s = Some Healthy"
proof (rule ccontr)
  assume ok: "fst (Retrieve f key s) = Inr v" and "db s \<noteq> Some Healthy"
  then have "sqlite3_prepare_v2 (prepare_fault f) s \<noteq> SQLITE_OK"
    by (simp add: prepare_ok_iff)
  then have "isl (fst (Retrieve f key s))"
    by (simp add: Retrieve_def)
  with ok show False by simp
qed

lemma Store_cases:
  obtains (prepare_fails) "Store f k v s = (Some (runtime_error ''Failed to prepare SQLite statement.''), s)"
  | (step_fails) "Store f k v s = (Some (runtime_error ''Failed to execute SQLite insert statement.''), s)"
  | (stored) t where "db s = Some Healthy" and "storage s = Some t"
      and "Store f k v s = (None, s\<lparr>storage := Some (insert_or_replace (c_str k) (c_str v) t)\<rparr>)"
proof (cases "sqlite3_prepare_v2 (prepare_fault f) s = SQLITE_OK")
  case False
  then have "Store f k v s = (Some (runtime_error ''Failed to prepare SQLite statement.''), s)"
    by (simp add: Store_def)
  then show ?thesis by (rule prepare_fails)
next
  case True
  then have h: "db s = Some Healthy" and "storage s \<noteq> None"
    by (simp_all add: prepare_ok_iff)
  then obtain t where t: "storage s = Some t"
    by (cases "storage s") simp_all
  show ?thesis
  proof (cases "step_fault f")
    case True
    then have "Store f k v s = (Some (runtime_error ''Failed to execute SQLite insert statement.''), s)"
      using \<open>sqlite3_prepare_v2 (prepare_fault f) s = SQLITE_OK\<close> t
      by (simp add: Store_def step_insert_def)
    then show ?thesis by (rule step_fails)
  next
    case False
    then have "Store f k v s =
        (None, s\<lparr>storage := Some (insert_or_replace (c_str k) (c_str v) t)\<rparr>)"
      using \<open>sqlite3_prepare_v2 (prepare_fault f) s = SQLITE_OK\<close> t
      by (simp add: Store_def step_insert_def)
    with h t show ?thesis by (rule stored)
  qed
qed

lemma Store_frame:
  "tasks (snd (Store f k v s)) = tasks s \<and> config (snd (Store f k v s)) = config s \<and>
   console (snd (Store f k v s)) = console s \<and> db (snd (Store f k v s)) = db s"
  by (cases f k v s rule: Store_cases) simp_all

text \<open>
  Claim C3. Writing \<open>v1\<close> and then \<open>v2\<close> under one key and reading the key should return
  exactly \<open>v2\<close>. \<open>Store\<close> binds the value with length \<open>-1\<close>, so SQLite keeps it only as far
  as its first zero byte: after writing \<open>a\<close> and then the three bytes \<open>x\<close>, zero, \<open>y\<close>
  under key \<open>k\<close>, the read returns the single byte \<open>x\<close>.
\<close>

theorem Store_truncates_value:
  "fst (Retrieve no_faults ''k''
          (snd (Store no_faults ''k'' [CHR ''x'', NUL, CHR ''y'']
             (snd (Store no_faults ''k'' ''a'' opened))))) = Inr ''x'' \<and>
   ''x'' \<noteq> [CHR ''x'', NUL, CHR ''y'']"
  by (simp add: Retrieve_def Store_def sqlite3_prepare_v2_def step_insert_def
      step_select_def insert_or_replace_def c_str_def NUL_def no_faults_def opened_def)

text \<open>
  Claim C8, as the code has it. In a state whose handle is null, which is the state before
  \<open>InitializeDatabase\<close> and the state after \<open>CloseDatabase\<close>, \<open>Store\<close> and \<open>Retrieve\<close>
  fail and leave the state as it is. The code has no check of the state and no error of
  its own for it: the failure is the runtime error of a statement that cannot be
  prepared. Whenever \<open>Store\<close> returns normally or \<open>Retrieve\<close> returns a value, the handle
  is an open connection.
\<close>

theorem Store_Retrieve_need_open_handle:
  "(db s = None \<longrightarrow>
      Store f key data s = (Some (runtime_error ''Failed to prepare SQLite statement.''), s) \<and>
      Retrieve f key s = (Inl (runtime_error ''Failed to prepare SQLite statement.''), s)) \<and>
   db (CloseDatabase s) = None \<and>
   (fst (Store f key data s) = None \<longrightarrow> db s = Some Healthy) \<and>
   (fst (Retrieve f key s) = Inr v \<longrightarrow> db s = Some Healthy)"
proof (intro conjI impI)
  assume "db s = None"
  then have m: "sqlite3_prepare_v2 b s = SQLITE_MISUSE" for b
    by (rule prepare_null)
  show "Store f key data s = (Some (runtime_error ''Failed to prepare SQLite statement.''), s)"
    by (simp add: Store_def m)
  show "Retrieve f key s = (Inl (runtime_error ''Failed to prepare SQLite statement.''), s)"
    by (simp add: Retrieve_def m)
next
  show "db (CloseDatabase s) = None"
    by (rule CloseDatabase_null)
next
  assume "fst (Store f key data s) = None"
  then show "db s = Some Healthy" by (rule Store_ok_open)
next
  assume "fst (Retrieve f key s) = Inr v"
  then show "db s = Some Healthy" by (rule Retrieve_ok_open)
qed

theorem Store_Retrieve_need_open_handle_witness:
  "db unopened = None \<and>
   Store no_faults ''k'' ''v'' unopened =
     (Some (runtime_error ''Failed to prepare SQLite statement.''), unopened) \<and>
   Retrieve no_faults ''k'' unopened =
     (Inl (runtime_error ''Failed to prepare SQLite statement.''), unopened) \<and>
   db (CloseDatabase opened) = None \<and>
   Store no_faults ''k'' ''v'' (CloseDatabase opened) =
     (Some (runtime_error ''Failed to prepare SQLite statement.''), CloseDatabase opened) \<and>
   fst (Store no_faults ''k'' ''v'' opened) = None \<and>
   fst (Retrieve no_faults ''k'' (snd (Store no_faults ''k'' ''v'' opened))) = Inr ''v'' \<and>
   db opened = Some Healthy \<and>
   db (snd (Store no_faults ''k'' ''v'' opened)) = Some Healthy"
proof -
  have u: "db unopened = None"
    by (simp add: unopened_def)
  have p: "fst (Store no_faults ''k'' ''v'' opened) = None"
    by (simp add: Store_def sqlite3_prepare_v2_def step_insert_def no_faults_def opened_def)
  have g: "fst (Retrieve no_faults ''k'' (snd (Store no_faults ''k'' ''v'' opened))) = Inr ''v''"
    by (simp add: Retrieve_def Store_def sqlite3_prepare_v2_def step_insert_def
        step_select_def insert_or_replace_def c_str_def NUL_def no_faults_def opened_def)
  note at_unopened =
    Store_Retrieve_need_open_handle [of unopened no_faults "''k''" "''v''" "''v''"]
  note at_closed =
    Store_Retrieve_need_open_handle [of "CloseDatabase opened" no_faults "''k''" "''v''" "''v''"]
  note at_opened =
    Store_Retrieve_need_open_handle [of opened no_faults "''k''" "''v''" "''v''"]
  note at_written =
    Store_Retrieve_need_open_handle
      [of "snd (Store no_faults ''k'' ''v'' opened)" no_faults "''k''" "''v''" "''v''"]
  have c: "db (CloseDatabase opened) = None"
    using at_opened by blast
  have 1: "Store no_faults ''k'' ''v'' unopened =
      (Some (runtime_error ''Failed to prepare SQLite statement.''), unopened)"
    using u at_unopened by blast
  have 2: "Retrieve no_faults ''k'' unopened =
      (Inl (runtime_error ''Failed to prepare SQLite statement.''), unopened)"
    using u at_unopened by blast
  have 3: "Store no_faults ''k'' ''v'' (CloseDatabase opened) =
      (Some (runtime_error ''Failed to prepare SQLite statement.''), CloseDatabase opened)"
    using c at_closed by blast
  have 4: "db opened = Some Healthy"
    using p at_opened by blast
  have 5: "db (snd (Store no_faults ''k'' ''v'' opened)) = Some Healthy"
    using g at_written by blast
  show ?thesis
    using u 1 2 c 3 p g 4 5 by blast
qed

text \<open>
  Claim C8 as stated names an error for the invalid state that differs from the errors of
  an open store. With a null handle, \<open>Store\<close> and \<open>Retrieve\<close> raise exactly the error that
  they raise on an open store when the library cannot prepare the statement.
\<close>

theorem null_handle_error_is_generic:
  "db unopened = None \<and> db opened = Some Healthy \<and>
   fst (Store no_faults ''k'' ''v'' unopened) =
     Some (runtime_error ''Failed to prepare SQLite statement.'') \<and>
   fst (Store prepare_failure ''k'' ''v'' opened) =
     Some (runtime_error ''Failed to prepare SQLite statement.'') \<and>
   fst (Retrieve no_faults ''k'' unopened) =
     Inl (runtime_error ''Failed to prepare SQLite statement.'') \<and>
   fst (Retrieve prepare_failure ''k'' opened) =
     Inl (runtime_error ''Failed to prepare SQLite statement.'')"
  by (simp add: Store_def Retrieve_def sqlite3_prepare_v2_def no_faults_def
      prepare_failure_def opened_def unopened_def)

text \<open>
  Claim C9. Reading a key that was never written should fail with the not-found error.
  \<open>Retrieve\<close> binds the key with length \<open>-1\<close>, so the row is looked up under the bytes
  before the key's first zero byte: after a write under key \<open>a\<close>, the read of the
  three-byte key \<open>a\<close>, zero, \<open>b\<close>, which was never written, returns the value of \<open>a\<close>.
\<close>

theorem Retrieve_truncates_key:
  "storage (snd (Store no_faults ''a'' ''x'' opened)) = Some [(''a'', ''x'')] \<and>
   fst (Retrieve no_faults [CHR ''a'', NUL, CHR ''b'']
          (snd (Store no_faults ''a'' ''x'' opened))) = Inr ''x'' \<and>
   [CHR ''a'', NUL, CHR ''b''] \<noteq> ''a''"
  by (simp add: Retrieve_def Store_def sqlite3_prepare_v2_def step_insert_def
      step_select_def insert_or_replace_def c_str_def NUL_def no_faults_def opened_def)

text \<open>
  Claim C10. \<open>Retrieve\<close> leaves the whole state, and with it the stored rows, as it found
  them: when it returns a value, when the key is absent, and when the library fails.
\<close>

theorem Retrieve_leaves_state:
  "snd (Retrieve f key s) = s"
  by (simp add: Retrieve_def step_select_def split: option.splits)

section \<open>Properties of the cipher\<close>

lemma length_write_buf: "length (write_buf buf bytes) = length buf"
  by (simp add: write_buf_def)


lemma length_fresh_nonce: "length (fresh_nonce lib) = crypto_secretbox_NONCEBYTES lib"
  by (simp add: fresh_nonce_def length_write_buf)

lemma length_envelope:
  "EncryptAndAuthenticate lib data key = Inr envelope \<Longrightarrow>
   length envelope =
     crypto_secretbox_NONCEBYTES lib + (crypto_secretbox_MACBYTES lib + length data)"
  by (auto simp: EncryptAndAuthenticate_def Let_def encrypted_buffer_def length_write_buf
      length_fresh_nonce split: if_splits)

lemma read_key_in_bounds:
  assumes "key_in_bounds lib key"
  shows "read_key lib key = take (crypto_secretbox_KEYBYTES lib) (key @ [NUL])"
proof -
  have "crypto_secretbox_KEYBYTES lib - length (key @ [NUL]) = 0"
    using assms by (simp add: key_in_bounds_def)
  then have "take (crypto_secretbox_KEYBYTES lib) ((key @ [NUL]) @ behind_key lib) =
      take (crypto_secretbox_KEYBYTES lib) (key @ [NUL])"
    by (simp only: take_append take_0 append_Nil2)
  then show ?thesis
    by (simp add: read_key_def)
qed

text \<open>
  Claim C4, as the code has it. \<open>EncryptAndAuthenticate\<close> never looks at the length of the
  key and has no error for it. When \<open>sodium_init()\<close> returns a negative code it fails with
  the runtime error of the failed initialization, whatever the key. When the library
  initializes and the read of the key stays inside the key and its terminator, which
  holds for every key longer than the key size, it returns an envelope made with the
  first \<open>crypto_secretbox_KEYBYTES\<close> bytes found at the key. Nothing is stated for a shorter
  key.
\<close>

theorem EncryptAndAuthenticate_ignores_key_length:
  "(sodium_init lib < 0 \<longrightarrow>
      EncryptAndAuthenticate lib data key =
        Inl (runtime_error ''Libsodium initialization failed.'')) \<and>
   (\<not> sodium_init lib < 0 \<and> key_in_bounds lib key \<longrightarrow>
      EncryptAndAuthenticate lib data key =
        Inr (fresh_nonce lib @
             write_buf (replicate (crypto_secretbox_MACBYTES lib + length data) NUL)
               (crypto_secretbox_easy lib data (fresh_nonce lib)
                  (take (crypto_secretbox_KEYBYTES lib) (key @ [NUL])))))"
proof (intro conjI impI)
  assume "sodium_init lib < 0"
  then show "EncryptAndAuthenticate lib data key =
      Inl (runtime_error ''Libsodium initialization failed.'')"
    by (simp add: EncryptAndAuthenticate_def)
next
  assume ok: "\<not> sodium_init lib < 0 \<and> key_in_bounds lib key"
  then have "read_key lib key = take (crypto_secretbox_KEYBYTES lib) (key @ [NUL])"
    by (simp add: read_key_in_bounds)
  with ok show "EncryptAndAuthenticate lib data key =
      Inr (fresh_nonce lib @
           write_buf (replicate (crypto_secretbox_MACBYTES lib + length data) NUL)
             (crypto_secretbox_easy lib data (fresh_nonce lib)
                (take (crypto_secretbox_KEYBYTES lib) (key @ [NUL]))))"
    by (simp add: EncryptAndAuthenticate_def encrypted_buffer_def Let_def)
qed

theorem EncryptAndAuthenticate_ignores_key_length_witness:
  "sodium_init failing_sodium < 0 \<and>
   EncryptAndAuthenticate failing_sodium ''ab'' (replicate 33 (CHR ''K'')) =
     Inl (runtime_error ''Libsodium initialization failed.'') \<and>
   \<not> sodium_init test_sodium < 0 \<and>
   key_in_bounds test_sodium (replicate 33 (CHR ''K'')) \<and>
   EncryptAndAuthenticate test_sodium ''ab'' (replicate 33 (CHR ''K'')) =
     Inr (fresh_nonce test_sodium @
          write_buf (replicate (crypto_secretbox_MACBYTES test_sodium + length ''ab'') NUL)
            (crypto_secretbox_easy test_sodium ''ab'' (fresh_nonce test_sodium)
               (take (crypto_secretbox_KEYBYTES test_sodium)
                  (replicate 33 (CHR ''K'') @ [NUL]))))"
proof -
  have 1: "sodium_init failing_sodium < 0"
    by (simp add: failing_sodium_def)
  have 2: "\<not> sodium_init test_sodium < 0"
    by (simp add: test_sodium_def)
  have 3: "key_in_bounds test_sodium (replicate 33 (CHR ''K''))"
    by (simp add: key_in_bounds_def test_sodium_def)
  show ?thesis
    using 1 2 3
      EncryptAndAuthenticate_ignores_key_length
        [of failing_sodium "''ab''" "replicate 33 (CHR ''K'')"]
      EncryptAndAuthenticate_ignores_key_length
        [of test_sodium "''ab''" "replicate 33 (CHR ''K'')"]
    by blast
qed

text \<open>
  Claim C4 as stated fails for a key of 33 bytes, one more than the key size:
  the library reads the first 32 bytes and the call returns an envelope.
\<close>

theorem long_key_accepted:
  "length (replicate 33 (CHR ''K'')) \<noteq> crypto_secretbox_KEYBYTES test_sodium \<and>
   EncryptAndAuthenticate test_sodium ''ab'' (replicate 33 (CHR ''K'')) =
     Inr (replicate 24 (CHR ''N'') @ replicate 16 (CHR ''T'') @ ''ba'')"
  by (simp add: EncryptAndAuthenticate_def encrypted_buffer_def fresh_nonce_def write_buf_def
      crypto_secretbox_easy_def read_key_def test_sodium_def Let_def)




section \<open>Properties of the thread pool\<close>

lemma get_each_first_error:
  "get_each (map Future js) = (r, ts) \<Longrightarrow> r = first_error js"
  by (induction js arbitrary: r ts rule: first_error.induct) (auto split: prod.splits)

lemma tasks_fold_AddTask: "tasks (fold AddTask js s) = tasks s @ map Future js"
  by (induction js arbitrary: s) (simp_all add: AddTask_def)

text \<open>
  Claim C2, as the code has it. \<open>WaitForAll\<close> returns no list of outcomes. After any
  sequence of jobs submitted to an empty pool, it returns normally when every job
  succeeds, and the task list is empty afterwards; when some job fails, the exception that
  leaves \<open>WaitForAll\<close> is the error of the first failing job in the order of submission.
\<close>

theorem WaitForAll_first_error:
  assumes "tasks s = []"
  shows "fst (WaitForAll (fold AddTask jobs s)) = first_error jobs \<and>
         (first_error jobs = None \<longrightarrow> tasks (snd (WaitForAll (fold AddTask jobs s))) = [])"
proof -
  obtain r ts where g: "get_each (map Future jobs) = (r, ts)"
    by (cases "get_each (map Future jobs)")
  then have r: "r = first_error jobs"
    by (rule get_each_first_error)
  have t: "tasks (fold AddTask jobs s) = map Future jobs"
    using assms by (simp add: tasks_fold_AddTask)
  show ?thesis
    using g r by (cases "first_error jobs") (simp_all add: WaitForAll_def t)
qed

theorem WaitForAll_first_error_witness:
  "tasks unopened = [] \<and>
   fst (WaitForAll (fold AddTask [Success, Error (runtime_error ''a''), Success] unopened)) =
     Some (runtime_error ''a'') \<and>
   first_error [Success, Success] = None \<and>
   fst (WaitForAll (fold AddTask [Success, Success] unopened)) = None \<and>
   tasks (snd (WaitForAll (fold AddTask [Success, Success] unopened))) = []"
proof -
  have e: "tasks unopened = []"
    by (simp add: unopened_def)
  show ?thesis
    using e WaitForAll_first_error [OF e, of "[Success, Error (runtime_error ''a''), Success]"]
      WaitForAll_first_error [OF e, of "[Success, Success]"]
    by simp
qed

text \<open>
  Claim C2 as stated fails for two failing jobs: the caller sees the first error only,
  the second job is not awaited, and the task list is not empty afterwards.
\<close>

theorem WaitForAll_reports_one_error:
  "WaitForAll (fold AddTask [Error (runtime_error ''a''), Error (runtime_error ''b'')] unopened) =
     (Some (runtime_error ''a''),
      unopened\<lparr>tasks := [Invalid, Future (Error (runtime_error ''b''))]\<rparr>)"
  by (simp add: WaitForAll_def AddTask_def unopened_def)

section \<open>Properties of the pipeline\<close>

lemma LoadConfig_frame:
  "tasks (snd (LoadConfig e p s)) = tasks s \<and> db (snd (LoadConfig e p s)) = db s \<and>
   storage (snd (LoadConfig e p s)) = storage s"
  by (cases "files e p") (simp_all add: LoadConfig_def)

lemma InitializeDatabase_tasks:
  "tasks (snd (InitializeDatabase e s)) = tasks s"
  by (simp add: InitializeDatabase_def split: sum.splits option.splits)

lemma encrypt_and_store_tasks:
  "tasks (snd (encrypt_and_store e md s)) = tasks s"
  by (simp add: encrypt_and_store_def Store_frame split: sum.splits)

lemma exec_Cons_snd:
  "snd (exec (c # cs) s) =
     (case fst (c s) of Some x \<Rightarrow> Some x | None \<Rightarrow> snd (exec cs (snd (c s))))"
  by (simp split: prod.splits option.splits)

lemma exec_Cons_fst:
  "fst (exec (c # cs) s) =
     snd (c s) # (case fst (c s) of Some x \<Rightarrow> [] | None \<Rightarrow> fst (exec cs (snd (c s))))"
  by (simp split: prod.splits option.splits)

lemma WaitForAll_frame:
  "db (snd (WaitForAll s)) = db s \<and> storage (snd (WaitForAll s)) = storage s \<and>
   config (snd (WaitForAll s)) = config s"
  by (simp add: WaitForAll_def split: prod.splits option.splits)

lemma WaitForAll_clears: "fst (WaitForAll s) = None \<Longrightarrow> tasks (snd (WaitForAll s)) = []"
  by (simp add: WaitForAll_def split: prod.splits option.splits)

lemma try_block_completes:
  "snd (exec (try_block e md) s) = None \<Longrightarrow>
   last (console (last (s # fst (exec (try_block e md) s)))) =
     (cout, ''Execution completed successfully.'')"
  by (simp add: try_block_def exec_Cons_fst exec_Cons_snd print_def del: exec.simps(2)
      split: option.splits)

lemma run_eq:
  "run e md =
     (case snd (exec (try_block e md) (initial e)) of
        None \<Rightarrow> initial e # fst (exec (try_block e md) (initial e))
      | Some x \<Rightarrow>
          initial e # fst (exec (try_block e md) (initial e)) @
            [print cerr (description x)
               (last (initial e # fst (exec (try_block e md) (initial e))))])"
  by (cases "exec (try_block e md) (initial e)") (simp add: run_def split: option.splits)

text \<open>
  Claim C1, as the code has it. Every run of \<open>main\<close> ends with exit status zero. When the
  \<open>try\<close> block completes, the last line written is the acknowledgment on \<open>std::cout\<close>;
  when an exception leaves it, the last line written is the description of that exception
  on \<open>std::cerr\<close>.
\<close>

theorem main_always_returns_zero:
  "fst (main e) = 0 \<and>
   last (console (last (snd (main e)))) =
     (case snd (exec (try_block e sample_metadata) (initial e)) of
        None \<Rightarrow> (cout, ''Execution completed successfully.'')
      | Some x \<Rightarrow> (cerr, description x))"
proof (cases "snd (exec (try_block e sample_metadata) (initial e))")
  case None
  then have "run e sample_metadata =
      initial e # fst (exec (try_block e sample_metadata) (initial e))"
    by (simp add: run_eq)
  then show ?thesis
    using None try_block_completes [OF None] by (simp add: main_def)
next
  case (Some x)
  then have "last (run e sample_metadata) =
      print cerr (description x)
        (last (initial e # fst (exec (try_block e sample_metadata) (initial e))))"
    by (simp add: run_eq)
  then show ?thesis
    using Some by (simp add: main_def print_def)
qed

text \<open>
  Claim C1 as stated fails when the configuration file cannot be opened: the failure is
  reported on \<open>std::cerr\<close> and the exit status is zero.
\<close>

theorem failure_exits_with_zero:
  "fst (LoadConfig no_config_env ''config.json'' (initial no_config_env)) =
     Some (runtime_error ''Failed to load configuration file.'') \<and>
   fst (main no_config_env) = 0 \<and>
   console (last (snd (main no_config_env))) =
     [(cerr, ''Error during execution: Failed to load configuration file.'')]"
  by code_simp




lemma envelope_stored_cong:
  assumes "config s' = config s" and "storage s' = storage s"
  shows "envelope_stored e md s' = envelope_stored e md s"
proof -
  have "envelope_of e md s' = envelope_of e md s"
    using assms(1) by (simp add: envelope_of_def Get_def)
  moreover have "stored_value k s' = stored_value k s" for k
    using assms(2) by (simp add: stored_value_def)
  ultimately show ?thesis
    by (simp add: envelope_stored_def split: option.splits)
qed

lemma in_exec_Cons:
  assumes "w \<in> set (fst (exec (c # cs) s))"
  obtains "w = snd (c s)" | "fst (c s) = None" and "w \<in> set (fst (exec cs (snd (c s))))"
proof (cases "fst (c s)")
  case None
  with assms have "w = snd (c s) \<or> w \<in> set (fst (exec cs (snd (c s))))"
    by (simp add: exec_Cons_fst del: exec.simps(2))
  with None that show ?thesis by blast
next
  case (Some x)
  with assms have "w = snd (c s)"
    by (simp add: exec_Cons_fst del: exec.simps(2))
  then show ?thesis by (rule that(1))
qed

lemma c_str_SampleKey: "c_str ''SampleKey'' = ''SampleKey''"
  by (simp add: c_str_def NUL_def)

lemma encrypt_and_store_ok:
  assumes "fst (encrypt_and_store e md s) = None"
  shows "db (snd (encrypt_and_store e md s)) = Some Healthy \<and>
         envelope_stored e md (snd (encrypt_and_store e md s))"
proof (cases "Get ''encryption_key'' s")
  case (Inl x)
  with assms show ?thesis by (simp add: encrypt_and_store_def)
next
  case key: (Inr key)
  show ?thesis
  proof (cases "EncryptAndAuthenticate (libsodium e) (toStyledString e md) key")
    case (Inl x)
    with assms key show ?thesis by (simp add: encrypt_and_store_def)
  next
    case (Inr encrypted_data)
    then have eq: "encrypt_and_store e md s =
        Store (store_faults e) ''SampleKey'' encrypted_data s"
      using key by (simp add: encrypt_and_store_def)
    show ?thesis
    proof (cases "store_faults e" "''SampleKey''" encrypted_data s rule: Store_cases)
      case prepare_fails
      with assms eq show ?thesis by simp
    next
      case step_fails
      with assms eq show ?thesis by simp
    next
      case (stored t)
      then show ?thesis
        using key Inr
        by (simp add: eq envelope_stored_def envelope_of_def stored_value_def Get_def
            map_of_insert_or_replace c_str_SampleKey)
    qed
  qed
qed



lemma try_block_states:
  assumes "w \<in> set (fst (exec (try_block e md) s))" and "tasks s = []" and "tasks w \<noteq> []"
  shows "db w = Some Healthy \<and> envelope_stored e md w"
proof -
  let ?s1 = "snd (LoadConfig e ''config.json'' s)"
  let ?s2 = "snd (InitializeDatabase e ?s1)"
  let ?s3 = "snd (encrypt_and_store e md ?s2)"
  let ?s4 = "AddTask (StoreMetadataInIPFS e sample_metadata) ?s3"
  let ?s5 = "snd (WaitForAll ?s4)"
  let ?s6 = "CloseDatabase ?s5"
  let ?s7 = "print cout ''Execution completed successfully.'' ?s6"
  let ?c4 = "\<lambda>s. (None, AddTask (StoreMetadataInIPFS e sample_metadata) s)"
  let ?c6 = "\<lambda>s. (None, CloseDatabase s)"
  let ?c7 = "\<lambda>s. (None, print cout ''Execution completed successfully.'' s)"
  have idle: "tasks ?s1 = []" "tasks ?s2 = []" "tasks ?s3 = []"
    using assms(2)
    by (simp_all add: LoadConfig_frame InitializeDatabase_tasks encrypt_and_store_tasks)
  have early: ?thesis if "w = ?s1 \<or> w = ?s2 \<or> w = ?s3"
    using that idle assms(3) by auto
  have pending: ?thesis
    if ok: "fst (encrypt_and_store e md ?s2) = None" and w: "w = ?s4 \<or> w = ?s5"
  proof -
    from ok have s3: "db ?s3 = Some Healthy" "envelope_stored e md ?s3"
      by (simp_all add: encrypt_and_store_ok)
    have s4: "db ?s4 = db ?s3" "config ?s4 = config ?s3" "storage ?s4 = storage ?s3"
      by (simp_all add: AddTask_def)
    have s5: "db ?s5 = db ?s4" "config ?s5 = config ?s4" "storage ?s5 = storage ?s4"
      by (simp_all add: WaitForAll_frame)
    have "envelope_stored e md ?s4"
      using s3(2) envelope_stored_cong [OF s4(2,3)] by simp
    moreover from this have "envelope_stored e md ?s5"
      using envelope_stored_cong [OF s5(2,3)] by simp
    moreover have "db ?s4 = Some Healthy" and "db ?s5 = Some Healthy"
      using s3(1) s4(1) s5(1) by simp_all
    ultimately show ?thesis
      using w by blast
  qed
  have late: ?thesis if ok: "fst (WaitForAll ?s4) = None" and w: "w = ?s6 \<or> w = ?s7"
  proof -
    from ok have "tasks ?s5 = []"
      by (simp add: WaitForAll_clears)
    then have "tasks ?s6 = []" and "tasks ?s7 = []"
      by (simp_all add: CloseDatabase_def print_def split: option.splits)
    with w assms(3) show ?thesis by auto
  qed
  have "w \<in> set (fst (exec [LoadConfig e ''config.json'', InitializeDatabase e,
      encrypt_and_store e md, ?c4, WaitForAll, ?c6, ?c7] s))"
    using assms(1) by (simp only: try_block_def)
  then show ?thesis
  proof (cases rule: in_exec_Cons)
    case 1
    then show ?thesis by (intro early disjI1)
  next
    case 2
    from 2(2) show ?thesis
    proof (cases rule: in_exec_Cons)
      case 1
      then show ?thesis by (intro early disjI2 disjI1)
    next
      case 2
      from 2(2) show ?thesis
      proof (cases rule: in_exec_Cons)
        case 1
        then show ?thesis by (intro early disjI2)
      next
        case 2
        note stored = 2(1)
        from 2(2) show ?thesis
        proof (cases rule: in_exec_Cons)
          case 1
          then have "w = ?s4"
            by (simp only: snd_conv)
          then have "w = ?s4 \<or> w = ?s5"
            by (rule disjI1)
          with stored show ?thesis by (rule pending)
        next
          case 2
          from 2(2) have "w \<in> set (fst (exec [WaitForAll, ?c6, ?c7] ?s4))"
            by (simp only: snd_conv)
          then show ?thesis
          proof (cases rule: in_exec_Cons)
            case 1
            then have "w = ?s4 \<or> w = ?s5"
              by (rule disjI2)
            with stored show ?thesis by (rule pending)
          next
            case 2
            note waited = 2(1)
            from 2(2) have "w = ?s6 \<or> w = ?s7"
              by simp
            with waited show ?thesis by (rule late)
          qed
        qed
      qed
    qed
  qed
qed

text \<open>
  Claim C7. In every state that a run of the process passes through, for every
  environment and every record: when a submitted job is pending, \<open>Store\<close> has completed
  and the table holds the envelope under \<open>SampleKey\<close>, and the database handle is open.
  So the job is submitted only after the write has completed, and \<open>CloseDatabase\<close> runs
  only after \<open>WaitForAll\<close> has emptied the task list.
\<close>

theorem pending_job_has_open_store:
  assumes "w \<in> set (run e md)" and "tasks w \<noteq> []"
  shows "db w = Some Healthy \<and> envelope_stored e md w"
proof -
  let ?h = "fst (exec (try_block e md) (initial e))"
  have idle: "tasks (initial e) = []"
    by (simp add: initial_def)
  have inside: "db u = Some Healthy \<and> envelope_stored e md u"
    if u: "u \<in> set (initial e # ?h)" and busy: "tasks u \<noteq> []" for u
  proof (cases "u = initial e")
    case True
    with idle busy show ?thesis by simp
  next
    case False
    with u have "u \<in> set ?h" by simp
    then show ?thesis using idle busy by (rule try_block_states)
  qed
  from assms(1) consider "w \<in> set (initial e # ?h)"
    | x where "w = print cerr (description x) (last (initial e # ?h))"
    by (cases "snd (exec (try_block e md) (initial e))") (auto simp: run_eq)
  then show ?thesis
  proof cases
    case 1
    then show ?thesis using assms(2) by (rule inside)
  next
    case 2
    let ?u = "last (initial e # ?h)"
    have "?u \<in> set (initial e # ?h)"
      by (rule last_in_set) simp
    moreover have "tasks ?u \<noteq> []"
      using 2 assms(2) by (simp add: print_def)
    ultimately have u: "db ?u = Some Healthy \<and> envelope_stored e md ?u"
      by (rule inside)
    have same: "db w = db ?u" "config w = config ?u" "storage w = storage ?u"
      using 2 by (simp_all add: print_def)
    show ?thesis
      using u same(1) envelope_stored_cong [OF same(2,3)] by simp
  qed
qed

theorem pending_job_has_open_store_witness:
  "run test_env sample_metadata ! 4 \<in> set (run test_env sample_metadata) \<and>
   tasks (run test_env sample_metadata ! 4) = [Future Success] \<and>
   db (run test_env sample_metadata ! 4) = Some Healthy \<and>
   envelope_stored test_env sample_metadata (run test_env sample_metadata ! 4)"
proof -
  have len: "4 < length (run test_env sample_metadata)"
    by code_simp
  have mem: "run test_env sample_metadata ! 4 \<in> set (run test_env sample_metadata)"
    using len by (rule nth_mem)
  have busy: "tasks (run test_env sample_metadata ! 4) = [Future Success]"
    by code_simp
  then have "tasks (run test_env sample_metadata ! 4) \<noteq> []"
    by simp
  with mem show ?thesis
    using busy pending_job_has_open_store [of "run test_env sample_metadata ! 4" test_env
        sample_metadata]
    by simp
qed

end
